theory Spec2Isabelle
  imports Complex_Main "HOL-Library.Signed_Division"
begin

section \<open>Go values used by the receipt service\<close>

text \<open>
  A Go \<open>string\<close> is a sequence of bytes; it is modelled as \<^typ>\<open>string\<close>, whose
  characters are 8-bit. \<open>len(s)\<close> is \<^term>\<open>length s\<close>. Bytes and code points are
  read as integers. Go's \<open>int\<close> and \<open>int64\<close> are
  64-bit two's complement on the targets of the Docker image; they are modelled as
  \<^typ>\<open>int\<close> with the wrap-around \<open>wrap64\<close> written at every addition, and Go's
  truncated remainder \<open>%\<close> is \<open>smod\<close>.
\<close>

definition byte :: "char \<Rightarrow> int" where
  "byte c = of_char c"

definition wrap64 :: "int \<Rightarrow> int" where
  "wrap64 x = (x + 2 ^ 63) mod 2 ^ 64 - 2 ^ 63"

definition in_int64 :: "int \<Rightarrow> bool" where
  "in_int64 x = (- (2 ^ 63) \<le> x \<and> x < 2 ^ 63)"

definition is_digit :: "char \<Rightarrow> bool" where
  "is_digit c = (48 \<le> byte c \<and> byte c \<le> 57)"

definition digit_val :: "char \<Rightarrow> int" where
  "digit_val c = byte c - 48"

definition is_upper :: "char \<Rightarrow> bool" where
  "is_upper c = (65 \<le> byte c \<and> byte c \<le> 90)"

definition is_lower :: "char \<Rightarrow> bool" where
  "is_lower c = (97 \<le> byte c \<and> byte c \<le> 122)"

definition lower :: "char \<Rightarrow> char" where
  "lower c = (case map_of (zip ''ABCDEFGHIJKLMNOPQRSTUVWXYZ'' ''abcdefghijklmnopqrstuvwxyz'') c of
                Some d \<Rightarrow> d | None \<Rightarrow> c)"

subsection \<open>float64\<close>

text \<open>
  A \<open>float64\<close> is a finite binary64 number, an infinity or a NaN. A finite number is
  kept as the rational it denotes (the two zeros are not told apart: the program only
  looks at a float through \<open>int(math.Round(x))\<close> and \<open>int(math.Ceil(x))\<close>, which send
  both zeros to 0). \<open>round64\<close> is IEEE 754 rounding to nearest, ties to even, with 53
  bits of precision, gradual underflow below \<open>2^-1022\<close> and overflow to infinity.
\<close>

datatype float64 = Finite rat | PosInf | NegInf | NaN

definition rpow :: "rat \<Rightarrow> int \<Rightarrow> rat" where
  "rpow b k = (if 0 \<le> k then b ^ nat k else 1 / b ^ nat (- k))"

text \<open>The same power by repeated squaring, for evaluation.\<close>

lemma rpow_code [code]:
  "rpow b k =
     (if k < 0 then 1 / rpow b (- k)
      else if k = 0 then 1
      else if even k then (let h = rpow b (k div 2) in h * h)
      else b * rpow b (k - 1))"
proof -
  have ev: "rpow b k = (let h = rpow b (k div 2) in h * h)" if "0 < k" "even k"
  proof -
    from that obtain j where j: "k = 2 * j" "0 < j" by (auto elim!: evenE)
    have "nat (2 * j) = nat j + nat j" using j(2) by simp
    then show ?thesis using j by (simp add: rpow_def Let_def power_add)
  qed
  have od: "rpow b k = b * rpow b (k - 1)" if "0 < k"
  proof -
    have "nat k = Suc (nat (k - 1))" using that by simp
    then show ?thesis using that by (simp add: rpow_def)
  qed
  show ?thesis using ev od by (auto simp: rpow_def)
qed

function bitlen :: "int \<Rightarrow> int" where
  "bitlen k = (if k \<le> 0 then 0 else 1 + bitlen (k div 2))"
  by pat_completeness auto
termination
  by (relation "measure nat") auto

definition ilog2 :: "rat \<Rightarrow> int" where
  "ilog2 q = (let (a, b) = quotient_of q; d = bitlen a - bitlen b
              in if rpow 2 d \<le> q then d else d - 1)"

definition round_half_even :: "rat \<Rightarrow> int" where
  "round_half_even q = (let f = \<lfloor>q\<rfloor>; r = q - of_int f
     in if r < 1 / 2 then f else if 1 / 2 < r then f + 1 else if even f then f else f + 1)"

definition round64 :: "rat \<Rightarrow> float64" where
  "round64 q = (if q = 0 then Finite 0 else
     let a = \<bar>q\<bar>; e = ilog2 a; p = max (e - 52) (- 1074);
         m = round_half_even (a / rpow 2 p); v = of_int m * rpow 2 p
     in if rpow 2 1024 \<le> v then (if q < 0 then NegInf else PosInf)
        else Finite (if q < 0 then - v else v))"

fun fmul :: "float64 \<Rightarrow> float64 \<Rightarrow> float64" where
  "fmul (Finite a) (Finite b) = round64 (a * b)"
| "fmul NaN y = NaN"
| "fmul x NaN = NaN"
| "fmul PosInf (Finite b) = (if b = 0 then NaN else if 0 < b then PosInf else NegInf)"
| "fmul NegInf (Finite b) = (if b = 0 then NaN else if 0 < b then NegInf else PosInf)"
| "fmul (Finite a) PosInf = (if a = 0 then NaN else if 0 < a then PosInf else NegInf)"
| "fmul (Finite a) NegInf = (if a = 0 then NaN else if 0 < a then NegInf else PosInf)"
| "fmul PosInf PosInf = PosInf"
| "fmul PosInf NegInf = NegInf"
| "fmul NegInf PosInf = NegInf"
| "fmul NegInf NegInf = PosInf"

text \<open>\<open>math.Round\<close> rounds half away from zero, \<open>math.Ceil\<close> rounds up; both keep
  infinities and NaN.\<close>

fun Round :: "float64 \<Rightarrow> float64" where
  "Round (Finite q) = Finite (of_int (if q < 0 then - \<lfloor>- q + 1 / 2\<rfloor> else \<lfloor>q + 1 / 2\<rfloor>))"
| "Round x = x"

fun Ceil :: "float64 \<Rightarrow> float64" where
  "Ceil (Finite q) = Finite (of_int \<lceil>q\<rceil>)"
| "Ceil x = x"

text \<open>
  \<open>int(x)\<close> truncates toward zero. When the truncated value does not fit, or \<open>x\<close> is an
  infinity or a NaN, Go leaves the result to the implementation; it is then whatever
  64-bit value the platform gives. The platform also carries what the source leaves to
  the Unicode tables of the standard library: which code points from 128 on are
  letters and which are decimal digits.
\<close>

record platform =
  conv_overflow :: "float64 \<Rightarrow> int"
  unicode_letter :: "int \<Rightarrow> bool"
  unicode_digit :: "int \<Rightarrow> bool"

definition trunc :: "rat \<Rightarrow> int" where
  "trunc q = (if q < 0 then - \<lfloor>- q\<rfloor> else \<lfloor>q\<rfloor>)"

definition float_to_int :: "platform \<Rightarrow> float64 \<Rightarrow> int" where
  "float_to_int env x =
     (case x of
        Finite q \<Rightarrow> if in_int64 (trunc q) then trunc q else wrap64 (conv_overflow env x)
      | PosInf \<Rightarrow> wrap64 (conv_overflow env x)
      | NegInf \<Rightarrow> wrap64 (conv_overflow env x)
      | NaN \<Rightarrow> wrap64 (conv_overflow env x))"

section \<open>strconv\<close>

datatype num_error = ErrSyntax | ErrRange

subsection \<open>ParseFloat\<close>

text \<open>
  \<open>strconv.ParseFloat(s, 64)\<close> accepts the words \<open>inf\<close>, \<open>infinity\<close> (signed or not)
  and \<open>nan\<close> in any case, and otherwise a decimal or hexadecimal floating-point number
  with optional sign, optional exponent and underscores between digits; the whole
  string must be consumed. The result is the nearest float64 of the number read; a
  number too large is a range error. \<open>readFloat\<close> follows the scanner of the library
  (leading zeros do not count as digits, an exponent stops growing at 10000), except
  that it keeps every digit of the mantissa instead of the first 19 and a sticky flag,
  which gives the same nearest float64.
\<close>

definition special :: "string \<Rightarrow> float64 option" where
  "special s = (let t = map lower s in
     if t = ''inf'' \<or> t = ''+inf'' \<or> t = ''infinity'' \<or> t = ''+infinity'' then Some PosInf
     else if t = ''-inf'' \<or> t = ''-infinity'' then Some NegInf
     else if t = ''nan'' then Some NaN
     else None)"

definition is_hex_letter :: "char \<Rightarrow> bool" where
  "is_hex_letter c = (97 \<le> byte (lower c) \<and> byte (lower c) \<le> 102)"

definition hex_val :: "char \<Rightarrow> int" where
  "hex_val c = byte (lower c) - 97 + 10"

record scan =
  sawdot :: bool
  sawdigits :: bool
  nd :: int
  dp :: int
  mantissa :: int
  underscores :: bool

definition scan0 :: scan where
  "scan0 = \<lparr>sawdot = False, sawdigits = False, nd = 0, dp = 0, mantissa = 0, underscores = False\<rparr>"

fun scan_mantissa :: "int \<Rightarrow> scan \<Rightarrow> string \<Rightarrow> scan \<times> string" where
  "scan_mantissa base st [] = (st, [])"
| "scan_mantissa base st (c # cs) =
     (if c = CHR ''_'' then scan_mantissa base (st\<lparr>underscores := True\<rparr>) cs
      else if c = CHR ''.'' then
        (if sawdot st then (st, c # cs)
         else scan_mantissa base (st\<lparr>sawdot := True, dp := nd st\<rparr>) cs)
      else if is_digit c then
        (if c = CHR ''0'' \<and> nd st = 0
         then scan_mantissa base (st\<lparr>sawdigits := True, dp := dp st - 1\<rparr>) cs
         else scan_mantissa base
                (st\<lparr>sawdigits := True, nd := nd st + 1,
                    mantissa := mantissa st * base + digit_val c\<rparr>) cs)
      else if base = 16 \<and> is_hex_letter c then
        scan_mantissa base
          (st\<lparr>sawdigits := True, nd := nd st + 1, mantissa := mantissa st * 16 + hex_val c\<rparr>) cs
      else (st, c # cs))"

fun scan_exp_digits :: "int \<Rightarrow> bool \<Rightarrow> string \<Rightarrow> int \<times> bool \<times> string" where
  "scan_exp_digits e u [] = (e, u, [])"
| "scan_exp_digits e u (c # cs) =
     (if c = CHR ''_'' then scan_exp_digits e True cs
      else if is_digit c then
        scan_exp_digits (if e < 10000 then e * 10 + digit_val c else e) u cs
      else (e, u, c # cs))"

fun cut_sign :: "string \<Rightarrow> bool \<times> string" where
  "cut_sign [] = (False, [])"
| "cut_sign (c # cs) =
     (if c = CHR ''+'' then (False, cs) else if c = CHR ''-'' then (True, cs)
      else (False, c # cs))"

fun hex_prefix :: "string \<Rightarrow> bool" where
  "hex_prefix (a # b # c # cs) = (a = CHR ''0'' \<and> lower b = CHR ''x'')"
| "hex_prefix cs = False"

definition read_exponent :: "string \<Rightarrow> (int \<times> bool \<times> string) option" where
  "read_exponent s =
     (case cut_sign s of (eneg, s1) \<Rightarrow>
        (case s1 of
           [] \<Rightarrow> None
         | d # ds \<Rightarrow>
             if \<not> is_digit d then None
             else (case scan_exp_digits 0 False s1 of
                     (e, u, rest) \<Rightarrow> Some (if eneg then - e else e, u, rest))))"

definition readFloat :: "string \<Rightarrow> (rat \<times> bool \<times> string) option" where
  "readFloat s =
     (if s = [] then None
      else
        (let neg = fst (cut_sign s);
             s1 = snd (cut_sign s);
             hex = hex_prefix s1;
             base = (if hex then 16 else 10);
             expChar = (if hex then CHR ''p'' else CHR ''e'');
             st = fst (scan_mantissa base scan0 (if hex then drop 2 s1 else s1));
             s2 = snd (scan_mantissa base scan0 (if hex then drop 2 s1 else s1))
         in if \<not> sawdigits st then None
            else
              (let dp1 = (if sawdot st then dp st else nd st);
                   dp2 = (if hex then dp1 * 4 else dp1);
                   ndMant = (if hex then nd st * 4 else nd st);
                   exp_part =
                     (case s2 of
                        [] \<Rightarrow> if hex then None else Some (0, False, s2)
                      | c # cs \<Rightarrow>
                          if lower c = expChar then read_exponent cs
                          else if hex then None else Some (0, False, s2))
               in (case exp_part of
                     None \<Rightarrow> None
                   | Some (e, u, rest) \<Rightarrow>
                       Some ((if neg then - 1 else 1) * of_int (mantissa st)
                               * rpow (if hex then 2 else 10) (dp2 + e - ndMant),
                             underscores st \<or> u, rest)))))"

fun underscore_loop :: "bool \<Rightarrow> char \<Rightarrow> string \<Rightarrow> bool" where
  "underscore_loop hex saw [] = (saw \<noteq> CHR ''_'')"
| "underscore_loop hex saw (c # cs) =
     (if is_digit c \<or> (hex \<and> is_hex_letter c) then underscore_loop hex (CHR ''0'') cs
      else if c = CHR ''_'' then
        (if saw \<noteq> CHR ''0'' then False else underscore_loop hex (CHR ''_'') cs)
      else if saw = CHR ''_'' then False
      else underscore_loop hex (CHR ''!'') cs)"

fun base_prefix :: "string \<Rightarrow> bool" where
  "base_prefix (a # b # cs) =
     (a = CHR ''0'' \<and> (lower b = CHR ''b'' \<or> lower b = CHR ''o'' \<or> lower b = CHR ''x''))"
| "base_prefix cs = False"

definition underscoreOK :: "string \<Rightarrow> bool" where
  "underscoreOK s =
     (let s1 = snd (cut_sign s);
          pre = base_prefix s1;
          hex = (pre \<and> lower (s1 ! 1) = CHR ''x'')
      in underscore_loop hex (if pre then CHR ''0'' else CHR ''^'')
           (if pre then drop 2 s1 else s1))"

definition ParseFloat :: "string \<Rightarrow> num_error + float64" where
  "ParseFloat s =
     (case special s of
        Some f \<Rightarrow> Inr f
      | None \<Rightarrow>
          (case readFloat s of
             None \<Rightarrow> Inl ErrSyntax
           | Some (v, u, rest) \<Rightarrow>
               if u \<and> \<not> underscoreOK (take (length s - length rest) s) then Inl ErrSyntax
               else if rest \<noteq> [] then Inl ErrSyntax
               else (case round64 v of
                       Finite q \<Rightarrow> Inr (Finite q)
                     | PosInf \<Rightarrow> Inl ErrRange
                     | NegInf \<Rightarrow> Inl ErrRange
                     | NaN \<Rightarrow> Inl ErrRange)))"

subsection \<open>Atoi\<close>

text \<open>
  \<open>strconv.Atoi\<close> reads an optional sign and one or more decimal digits (no
  underscores in base 10); a value outside of \<open>int\<close> is a range error.
\<close>

definition decimal :: "string \<Rightarrow> int" where
  "decimal ds = foldl (\<lambda>n c. n * 10 + digit_val c) 0 ds"

definition Atoi :: "string \<Rightarrow> num_error + int" where
  "Atoi s =
     (case cut_sign s of (neg, ds) \<Rightarrow>
        if ds = [] \<or> \<not> list_all is_digit ds then Inl ErrSyntax
        else let n = (if neg then - decimal ds else decimal ds)
             in if in_int64 n then Inr n else Inl ErrRange)"

section \<open>Runes\<close>

text \<open>
  \<open>for _, r := range str\<close> walks the code points of \<open>str\<close>: a byte below 128 is its own
  code point, anything else goes through the runtime's \<open>decoderune\<close>, which gives
  U+FFFD and a width of one byte for every ill-formed sequence.
\<close>

definition RuneError :: int where
  "RuneError = 0xFFFD"

definition cont :: "char \<Rightarrow> bool" where
  "cont c = (0x80 \<le> byte c \<and> byte c \<le> 0xBF)"

definition decoderune :: "string \<Rightarrow> int \<times> nat" where
  "decoderune s =
     (case s of
        c0 # c1 # cs \<Rightarrow>
          if 0xC0 \<le> byte c0 \<and> byte c0 < 0xE0 then
            (let r = byte c0 mod 32 * 64 + byte c1 mod 64
             in if cont c1 \<and> 0x7F < r then (r, 2) else (RuneError, 1))
          else if 0xE0 \<le> byte c0 \<and> byte c0 < 0xF0 then
            (case cs of
               c2 # cs2 \<Rightarrow>
                 (let r = byte c0 mod 16 * 4096 + byte c1 mod 64 * 64 + byte c2 mod 64
                  in if cont c1 \<and> cont c2 \<and> 0x7FF < r \<and> \<not> (0xD800 \<le> r \<and> r \<le> 0xDFFF)
                     then (r, 3) else (RuneError, 1))
             | [] \<Rightarrow> (RuneError, 1))
          else if 0xF0 \<le> byte c0 \<and> byte c0 < 0xF8 then
            (case cs of
               c2 # c3 # cs3 \<Rightarrow>
                 (let r = byte c0 mod 8 * 262144 + byte c1 mod 64 * 4096
                          + byte c2 mod 64 * 64 + byte c3 mod 64
                  in if cont c1 \<and> cont c2 \<and> cont c3 \<and> 0xFFFF < r \<and> r \<le> 0x10FFFF
                     then (r, 4) else (RuneError, 1))
             | [c2] \<Rightarrow> (RuneError, 1)
             | [] \<Rightarrow> (RuneError, 1))
          else (RuneError, 1)
      | [c0] \<Rightarrow> (RuneError, 1)
      | [] \<Rightarrow> (RuneError, 1))"

definition first_rune :: "string \<Rightarrow> int \<times> nat" where
  "first_rune s = (case s of [] \<Rightarrow> (RuneError, 0)
                   | c # cs \<Rightarrow> if byte c < 0x80 then (byte c, 1) else decoderune s)"

fun runes :: "string \<Rightarrow> int list" where
  "runes [] = []"
| "runes (c # cs) =
     (case first_rune (c # cs) of (r, w) \<Rightarrow> r # runes (drop (w - 1) cs))"

text \<open>\<open>unicode.IsLetter\<close> and \<open>unicode.IsDigit\<close>: ASCII here, the tables of the
  platform from 128 on.\<close>

definition IsLetter :: "platform \<Rightarrow> int \<Rightarrow> bool" where
  "IsLetter env r =
     (if r < 128 then (65 \<le> r \<and> r \<le> 90) \<or> (97 \<le> r \<and> r \<le> 122) else unicode_letter env r)"

definition IsDigit :: "platform \<Rightarrow> int \<Rightarrow> bool" where
  "IsDigit env r = (if r < 128 then 48 \<le> r \<and> r \<le> 57 else unicode_digit env r)"

text \<open>\<open>unicode.IsSpace\<close>: the white space of Latin-1 and the code points with the
  property White_Space.\<close>

definition IsSpace :: "int \<Rightarrow> bool" where
  "IsSpace r =
     (r \<in> set [0x09, 0x0A, 0x0B, 0x0C, 0x0D, 0x20, 0x85, 0xA0, 0x1680, 0x2028, 0x2029,
                0x202F, 0x205F, 0x3000]
      \<or> (0x2000 \<le> r \<and> r \<le> 0x200A))"

subsection \<open>strings.TrimSpace\<close>

text \<open>
  \<open>TrimSpace\<close> removes the white-space code points at both ends. At the end of the
  string the code point is found by \<open>utf8.DecodeLastRuneInString\<close>: a last byte below
  128 is the code point; otherwise the decoder steps back over at most three further
  bytes to the nearest byte that can start a code point and decodes from there, and
  the result counts only when it reaches the end of the string exactly. \<open>last_rune\<close>
  takes the string reversed.
\<close>

definition RuneStart :: "char \<Rightarrow> bool" where
  "RuneStart c = (\<not> cont c)"

definition last_start :: "string \<Rightarrow> nat" where
  "last_start rs =
     (case rs of
        [] \<Rightarrow> 0
      | b1 # r1 \<Rightarrow>
          (case r1 of
             [] \<Rightarrow> 1
           | b2 # r2 \<Rightarrow>
               if RuneStart b2 then 2
               else (case r2 of
                       [] \<Rightarrow> 2
                     | b3 # r3 \<Rightarrow>
                         if RuneStart b3 then 3
                         else (case r3 of
                                 [] \<Rightarrow> 3
                               | b4 # r4 \<Rightarrow>
                                   if RuneStart b4 then 4
                                   else (case r4 of [] \<Rightarrow> 4 | b5 # r5 \<Rightarrow> 5)))))"

definition last_rune :: "string \<Rightarrow> int \<times> nat" where
  "last_rune rs =
     (case rs of
        [] \<Rightarrow> (RuneError, 0)
      | b # r \<Rightarrow>
          if byte b < 0x80 then (byte b, 1)
          else (let k = last_start rs
                in case first_rune (rev (take k rs)) of
                     (r, sz) \<Rightarrow> if sz = k then (r, sz) else (RuneError, 1)))"

fun trim_left :: "string \<Rightarrow> string" where
  "trim_left [] = []"
| "trim_left (c # cs) =
     (case first_rune (c # cs) of
        (r, w) \<Rightarrow> if IsSpace r then trim_left (drop (w - 1) cs) else c # cs)"

fun trim_right_rev :: "string \<Rightarrow> string" where
  "trim_right_rev [] = []"
| "trim_right_rev (c # cs) =
     (case last_rune (c # cs) of
        (r, w) \<Rightarrow> if IsSpace r then trim_right_rev (drop (w - 1) cs) else c # cs)"

definition TrimSpace :: "string \<Rightarrow> string" where
  "TrimSpace s = rev (trim_right_rev (rev (trim_left s)))"

section \<open>The receipt\<close>

record Item =
  ShortDescription :: string
  Price :: string

record Receipt =
  ID :: string
  Retailer :: string
  PurchaseDate :: string
  PurchaseTime :: string
  Items :: "Item list"
  Total :: string

section \<open>The scorer\<close>

text \<open>A slice expression out of range stops the program with a run-time panic.\<close>

datatype panic = SliceBoundsOutOfRange

text \<open>\<open>GetAlphanumeric\<close>, lines 106-114 of main.go.\<close>

definition GetAlphanumeric :: "platform \<Rightarrow> string \<Rightarrow> int" where
  "GetAlphanumeric env str =
     fold (\<lambda>r total. if IsLetter env r \<or> IsDigit env r then wrap64 (total + 1) else total)
       (runes str) 0"

text \<open>\<open>GetTotalCostPoints\<close>, lines 117-133.\<close>

definition GetTotalCostPoints :: "platform \<Rightarrow> string \<Rightarrow> int" where
  "GetTotalCostPoints env costStr =
     (case ParseFloat costStr of
        Inl err \<Rightarrow> 0
      | Inr costFloat \<Rightarrow>
          (let costInt = float_to_int env (Round (fmul costFloat (Finite 100)));
               points = (if costInt smod 100 = 0 then wrap64 (0 + 50) else 0);
               points = (if costInt smod 25 = 0 then wrap64 (points + 25) else points)
           in points))"

text \<open>
  \<open>GetItemPoints\<close>, lines 136-163. \<open>desc_rule\<close> is the second half of the loop body
  (lines 147-159) as an update of \<open>points\<close>; \<open>item_step\<close> is the whole body on the
  pair \<open>(numItems, points)\<close>. The constant \<open>.2\<close> is the float64 nearest to 1/5.
\<close>

definition desc_rule :: "platform \<Rightarrow> Item \<Rightarrow> int \<Rightarrow> int" where
  "desc_rule env item points =
     (let desc = ShortDescription item;
          trimmed = TrimSpace desc;
          len = int (length trimmed)
      in if len smod 3 = 0 then
           (case ParseFloat (Price item) of
              Inl err \<Rightarrow> points
            | Inr itemPriceFloat \<Rightarrow>
                (let itemPriceFloat = fmul itemPriceFloat (round64 (2 / 10));
                     itemPrice = float_to_int env (Ceil itemPriceFloat)
                 in wrap64 (points + itemPrice)))
         else points)"

definition item_step :: "platform \<Rightarrow> Item \<Rightarrow> int \<times> int \<Rightarrow> int \<times> int" where
  "item_step env item st =
     (case st of (numItems, points) \<Rightarrow>
        (let numItems = wrap64 (numItems + 1);
             points = (if numItems smod 2 = 0 then wrap64 (points + 5) else points)
         in (numItems, desc_rule env item points)))"

definition GetItemPoints :: "platform \<Rightarrow> Receipt \<Rightarrow> int" where
  "GetItemPoints env receipt = snd (fold (item_step env) (Items receipt) (0, 0))"

text \<open>\<open>GetDatePoints\<close>, lines 166-175: \<open>dateString[len(dateString)-2:]\<close> panics on a
  string shorter than two bytes.\<close>

definition GetDatePoints :: "string \<Rightarrow> panic + int" where
  "GetDatePoints dateString =
     (if length dateString < 2 then Inl SliceBoundsOutOfRange
      else (case Atoi (drop (length dateString - 2) dateString) of
              Inl err \<Rightarrow> Inr 0
            | Inr day \<Rightarrow> Inr (if day smod 2 = 1 then 6 else 0)))"

text \<open>\<open>GetTimePoints\<close>, lines 178-187: \<open>timeString[:2]\<close> panics on a string shorter
  than two bytes.\<close>

definition GetTimePoints :: "string \<Rightarrow> panic + int" where
  "GetTimePoints timeString =
     (if length timeString < 2 then Inl SliceBoundsOutOfRange
      else (case Atoi (take 2 timeString) of
              Inl err \<Rightarrow> Inr 0
            | Inr time \<Rightarrow> Inr (if 14 \<le> time \<and> time < 16 then 10 else 0)))"

text \<open>\<open>GetReceiptPoints\<close>, lines 75-99.\<close>

definition GetReceiptPoints :: "platform \<Rightarrow> Receipt \<Rightarrow> panic + int" where
  "GetReceiptPoints env receipt =
     (let points = GetAlphanumeric env (Retailer receipt);
          points = wrap64 (points + GetTotalCostPoints env (Total receipt));
          points = wrap64 (points + GetItemPoints env receipt)
      in case GetDatePoints (PurchaseDate receipt) of
           Inl p \<Rightarrow> Inl p
         | Inr datePoints \<Rightarrow>
             (let points = wrap64 (points + datePoints)
              in case GetTimePoints (PurchaseTime receipt) of
                   Inl p \<Rightarrow> Inl p
                 | Inr timePoints \<Rightarrow> Inr (wrap64 (points + timePoints))))"


section \<open>The validator\<close>

text \<open>
  The patterns are matched by Go's \<open>regexp\<close>, where \<open>\w\<close> is \<open>[0-9A-Za-z_]\<close>, \<open>\s\<close> is
  \<open>[\t\n\f\r ]\<close>, \<open>\d\<close> is \<open>[0-9]\<close> and \<open>$\<close> is the end of the text. A pattern without
  \<open>^\<close> is searched for at every position of the string.
\<close>

definition word_char :: "char \<Rightarrow> bool" where
  "word_char c = (is_digit c \<or> is_upper c \<or> is_lower c \<or> c = CHR ''_'')"

definition space_char :: "char \<Rightarrow> bool" where
  "space_char c = (byte c \<in> set [0x09, 0x0A, 0x0C, 0x0D, 0x20])"

text \<open>\<open>CheckValidDescription\<close>, lines 243-250: the pattern \<open>^[\w\s\-&]+$\<close>.\<close>

definition CheckValidDescription :: "string \<Rightarrow> bool" where
  "CheckValidDescription str =
     (str \<noteq> [] \<and>
      list_all (\<lambda>c. word_char c \<or> space_char c \<or> c = CHR ''-'' \<or> c = CHR ''&'') str)"

text \<open>
  \<open>price_here t\<close>: the pattern \<open>\d+\.\d{2}$\<close> matches \<open>t\<close> from its first byte to its
  end. \<open>tails s\<close> are the strings left of \<open>s\<close> from each position on.
\<close>

definition price_here :: "string \<Rightarrow> bool" where
  "price_here t =
     (takeWhile is_digit t \<noteq> [] \<and>
      (case dropWhile is_digit t of
         [d, a, b] \<Rightarrow> d = CHR ''.'' \<and> is_digit a \<and> is_digit b
       | _ \<Rightarrow> False))"

fun tails :: "string \<Rightarrow> string list" where
  "tails [] = [[]]"
| "tails (c # cs) = (c # cs) # tails cs"

definition match_price :: "string \<Rightarrow> bool" where
  "match_price s = list_ex price_here (tails s)"

text \<open>\<open>CheckPriceValidity\<close>, lines 253-261.\<close>

definition CheckPriceValidity :: "string \<Rightarrow> bool" where
  "CheckPriceValidity str = match_price str"

subsection \<open>time.Parse\<close>

text \<open>
  \<open>time.Parse("2006-01-02", s)\<close> reads four digits, a hyphen, two digits, a hyphen and
  two digits, and nothing more; the month is 1 to 12 and the day exists in that month
  of that year. \<open>time.Parse("15:04", s)\<close> reads an hour of one or two digits below 24,
  a colon and a minute of two digits below 60. \<open>getnum\<close> is the library's reader of a
  one- or two-digit number (two digits exactly when \<open>fixed\<close>).
\<close>

definition getnum :: "string \<Rightarrow> bool \<Rightarrow> (int \<times> string) option" where
  "getnum s fixed =
     (case s of
        [] \<Rightarrow> None
      | c0 # r0 \<Rightarrow>
          if \<not> is_digit c0 then None
          else (case r0 of
                  [] \<Rightarrow> if fixed then None else Some (digit_val c0, r0)
                | c1 # r1 \<Rightarrow>
                    if \<not> is_digit c1 then (if fixed then None else Some (digit_val c0, r0))
                    else Some (digit_val c0 * 10 + digit_val c1, r1)))"

definition skip :: "string \<Rightarrow> char \<Rightarrow> string option" where
  "skip v c = (case v of [] \<Rightarrow> None | x # xs \<Rightarrow> if x = c then Some xs else None)"

definition isLeap :: "int \<Rightarrow> bool" where
  "isLeap year = (year mod 4 = 0 \<and> (year mod 100 \<noteq> 0 \<or> year mod 400 = 0))"

definition daysIn :: "int \<Rightarrow> int \<Rightarrow> int" where
  "daysIn m year =
     (if m = 2 then (if isLeap year then 29 else 28)
      else if m = 4 \<or> m = 6 \<or> m = 9 \<or> m = 11 then 30 else 31)"

definition parse_date :: "string \<Rightarrow> (int \<times> int \<times> int) option" where
  "parse_date s =
     (if length s < 4 \<or> \<not> list_all is_digit (take 4 s) then None
      else
        (let year = decimal (take 4 s)
         in (case skip (drop 4 s) (CHR ''-'') of
               None \<Rightarrow> None
             | Some v1 \<Rightarrow>
                 (case getnum v1 True of
                    None \<Rightarrow> None
                  | Some (month, v2) \<Rightarrow>
                      if month \<le> 0 \<or> 12 < month then None
                      else
                        (case skip v2 (CHR ''-'') of
                           None \<Rightarrow> None
                         | Some v3 \<Rightarrow>
                             (case getnum v3 True of
                                None \<Rightarrow> None
                              | Some (day, v4) \<Rightarrow>
                                  if v4 \<noteq> [] then None
                                  else if day < 1 \<or> daysIn month year < day then None
                                  else Some (year, month, day)))))))"

definition parse_time :: "string \<Rightarrow> (int \<times> int) option" where
  "parse_time s =
     (case getnum s False of
        None \<Rightarrow> None
      | Some (hour, v1) \<Rightarrow>
          if hour < 0 \<or> 24 \<le> hour then None
          else
            (case skip v1 (CHR '':'') of
               None \<Rightarrow> None
             | Some v2 \<Rightarrow>
                 (case getnum v2 True of
                    None \<Rightarrow> None
                  | Some (minute, v3) \<Rightarrow>
                      if minute < 0 \<or> 60 \<le> minute then None
                      else if v3 \<noteq> [] then None
                      else Some (hour, minute))))"

text \<open>\<open>CheckValidTime\<close>, lines 264-281.\<close>

definition CheckValidTime :: "string \<Rightarrow> string \<Rightarrow> bool" where
  "CheckValidTime dateString timeString =
     (if parse_date dateString = None then False
      else if parse_time timeString = None then False
      else True)"

text \<open>\<open>CheckItemsValidity\<close>, lines 284-312; \<open>check_items\<close> is its loop, with the item
  description pattern \<open>^[\w\s\-]+$\<close>.\<close>

definition match_desc :: "string \<Rightarrow> bool" where
  "match_desc str =
     (str \<noteq> [] \<and> list_all (\<lambda>c. word_char c \<or> space_char c \<or> c = CHR ''-'') str)"

fun check_items :: "Item list \<Rightarrow> bool" where
  "check_items [] = True"
| "check_items (item # items) =
     (if \<not> match_price (Price item) then False
      else if \<not> match_desc (ShortDescription item) then False
      else check_items items)"

definition CheckItemsValidity :: "Receipt \<Rightarrow> bool" where
  "CheckItemsValidity receipt =
     (if length (Items receipt) < 1 then False else check_items (Items receipt))"

section \<open>The handler\<close>

text \<open>
  \<open>CreateReceipt\<close>, lines 190-236. The request is what \<open>Decode\<close> made of the body: the
  receipt as far as the decoder filled it in, and whether the decoder reported an
  error. The handler drops that error (\<open>_ = ...Decode(&receipt)\<close>). The state of the
  server is the slice \<open>receipts\<close> together with the number of identifiers generated so
  far; \<open>uuid n\<close> is the identifier that \<open>GenerateID\<close> returns at its \<open>n\<close>-th call.
\<close>

record request =
  decoded :: Receipt
  decode_error :: bool

record server =
  receipts :: "Receipt list"
  generated :: nat

datatype reply = Error int string | IDResponse string

definition StatusBadRequest :: int where
  "StatusBadRequest = 400"

definition GenerateID :: "(nat \<Rightarrow> string) \<Rightarrow> server \<Rightarrow> string \<times> server" where
  "GenerateID uuid srv = (uuid (generated srv), srv\<lparr>generated := Suc (generated srv)\<rparr>)"

definition CreateReceipt :: "(nat \<Rightarrow> string) \<Rightarrow> request \<Rightarrow> server \<Rightarrow> reply \<times> server" where
  "CreateReceipt uuid r srv =
     (let receipt = decoded r
      in if \<not> CheckValidDescription (Retailer receipt) then
           (Error StatusBadRequest ''The receipt is invalid.'', srv)
         else if \<not> CheckValidTime (PurchaseDate receipt) (PurchaseTime receipt) then
           (Error StatusBadRequest ''The receipt is invalid.'', srv)
         else if \<not> CheckItemsValidity receipt then
           (Error StatusBadRequest ''The receipt is invalid.'', srv)
         else if \<not> CheckPriceValidity (Total receipt) then
           (Error StatusBadRequest ''The receipt is invalid.'', srv)
         else
           (case GenerateID uuid srv of
              (newid, srv1) \<Rightarrow>
                (let receipt = receipt\<lparr>ID := newid\<rparr>
                 in (IDResponse (ID receipt), srv1\<lparr>receipts := receipts srv1 @ [receipt]\<rparr>))))"

section \<open>Derived notions and sample values\<close>

text \<open>What the description-length rule adds for one item: its effect on a count of 0.\<close>

definition desc_points :: "platform \<Rightarrow> Item \<Rightarrow> int" where
  "desc_points env item = desc_rule env item 0"

text \<open>A receipt is valid when it passes the four checks of \<open>CreateReceipt\<close>.\<close>

definition valid_receipt :: "Receipt \<Rightarrow> bool" where
  "valid_receipt receipt =
     (CheckValidDescription (Retailer receipt) \<and>
      CheckValidTime (PurchaseDate receipt) (PurchaseTime receipt) \<and>
      CheckItemsValidity receipt \<and>
      CheckPriceValidity (Total receipt))"

text \<open>
  A platform for the closed examples: on amd64 a conversion that does not fit gives
  \<open>-2^63\<close>. Its Unicode tables are left empty from 128 on; the examples are ASCII.
\<close>

definition amd64 :: platform where
  "amd64 = \<lparr>conv_overflow = (\<lambda>x. - (2 ^ 63)), unicode_letter = (\<lambda>r. False),
             unicode_digit = (\<lambda>r. False)\<rparr>"

text \<open>The receipt of the end-to-end scenario.\<close>

definition target_receipt :: Receipt where
  "target_receipt =
     \<lparr>ID = [], Retailer = ''Target'', PurchaseDate = ''2022-01-01'',
      PurchaseTime = ''13:01'',
      Items = [\<lparr>ShortDescription = ''Mountain Dew 12PK'', Price = ''6.49''\<rparr>,
               \<lparr>ShortDescription = ''Emils Cheese Pizza'', Price = ''12.25''\<rparr>,
               \<lparr>ShortDescription = ''Knorr Creamy Chicken'', Price = ''1.26''\<rparr>,
               \<lparr>ShortDescription = ''Doritos Nacho Cheese'', Price = ''3.35''\<rparr>,
               \<lparr>ShortDescription = ''   Klarbrunn 12-PK 12 FL OZ  '', Price = ''12.00''\<rparr>],
      Total = ''35.35''\<rparr>"

text \<open>An item that earns no description points, and receipts of given items.\<close>

definition gatorade :: Item where
  "gatorade = \<lparr>ShortDescription = ''Gatorade'', Price = ''2.25''\<rparr>"

definition receipt_of :: "Item list \<Rightarrow> Receipt" where
  "receipt_of items =
     \<lparr>ID = [], Retailer = ''M&M Corner Market'', PurchaseDate = ''2022-03-20'',
      PurchaseTime = ''14:33'', Items = items, Total = ''9.00''\<rparr>"

text \<open>A receipt with a negative item price, which the price pattern lets through.\<close>

definition refund_receipt :: Receipt where
  "refund_receipt =
     \<lparr>ID = [], Retailer = ''Target'', PurchaseDate = ''2022-01-02'',
      PurchaseTime = ''13:01'',
      Items = [\<lparr>ShortDescription = ''Gum'', Price = ''-500.00''\<rparr>],
      Total = ''1.01''\<rparr>"

text \<open>A receipt that passes the checks although its total, its item price and the
  first two bytes of its time are not numbers.\<close>

definition lenient_receipt :: Receipt where
  "lenient_receipt =
     \<lparr>ID = [], Retailer = ''Target'', PurchaseDate = ''2022-01-01'',
      PurchaseTime = ''9:30'',
      Items = [\<lparr>ShortDescription = ''Gum'', Price = ''$4.00''\<rparr>],
      Total = ''$12.30''\<rparr>"

text \<open>The receipt before the decoder has written to it: every field at its zero value.\<close>

definition blank_receipt :: Receipt where
  "blank_receipt =
     \<lparr>ID = [], Retailer = [], PurchaseDate = [], PurchaseTime = [], Items = [], Total = []\<rparr>"

text \<open>
  A request whose decoding reports an error and still fills in every field: the JSON
  of the scenario with one more member, \<open>"ID": 7\<close>. A number does not fit the string
  field \<open>ID\<close>, so \<open>Decode\<close> skips that member, goes on with the others and returns an
  \<open>UnmarshalTypeError\<close>.
\<close>

definition typed_id_request :: request where
  "typed_id_request = \<lparr>decoded = target_receipt, decode_error = True\<rparr>"

text \<open>A server that has stored nothing yet, and identifiers for two calls.\<close>

definition empty_server :: server where
  "empty_server = \<lparr>receipts = [], generated = 0\<rparr>"

definition sample_uuid :: "nat \<Rightarrow> string" where
  "sample_uuid n =
     (if n = 0 then ''7fb1377b-b223-49d9-a31a-5a02701dd310''
      else ''adb6b560-0eef-42bc-9d16-df48f30e89b2'')"

section \<open>Arithmetic of the 64-bit integers\<close>

lemma wrap64_in: "in_int64 (wrap64 x)"
  unfolding in_int64_def wrap64_def
  using pos_mod_bound[of "2 ^ 64" "x + 2 ^ 63"] pos_mod_sign[of "2 ^ 64" "x + 2 ^ 63"]
  by simp

lemma wrap64_id: "in_int64 x \<Longrightarrow> wrap64 x = x"
  unfolding in_int64_def wrap64_def by (simp add: mod_pos_pos_trivial)

lemma wrap64_add_left: "wrap64 (wrap64 a + b) = wrap64 (a + b)"
proof -
  have "(wrap64 a + b + 2 ^ 63) mod 2 ^ 64 = (a + b + 2 ^ 63) mod (2 ^ 64 :: int)"
    unfolding wrap64_def
    by (smt (verit) mod_add_left_eq add.commute add.left_commute diff_add_cancel mod_add_right_eq)
  then show ?thesis unfolding wrap64_def by simp
qed

lemma wrap64_add_right: "wrap64 (a + wrap64 b) = wrap64 (a + b)"
  using wrap64_add_left[of b a] by (simp add: add.commute)

lemma even_wrap64: "even (wrap64 x) \<longleftrightarrow> even x"
proof -
  have "even ((x + 2 ^ 63) mod 2 ^ 64) \<longleftrightarrow> even (x + 2 ^ 63 :: int)"
    by (rule dvd_mod_iff) simp
  then show ?thesis unfolding wrap64_def by simp
qed

lemma smod_zero_iff: "0 < l \<Longrightarrow> (k::int) smod l = 0 \<longleftrightarrow> l dvd k"
proof -
  assume "0 < l"
  have "k smod l = 0 \<longleftrightarrow> k = 0 \<or> \<bar>k\<bar> mod \<bar>l\<bar> = 0"
    by (simp add: smod_int_alt_def sgn_if)
  also have "\<dots> \<longleftrightarrow> k = 0 \<or> l dvd k"
    by (simp add: mod_eq_0_iff_dvd)
  also have "\<dots> \<longleftrightarrow> l dvd k" by auto
  finally show ?thesis .
qed

lemma smod2_even: "(x::int) smod 2 = 0 \<longleftrightarrow> even x"
  using smod_zero_iff[of 2 x] by simp

lemma wrap64_small: "wrap64 0 = 0" "wrap64 25 = 25" "wrap64 50 = 50" "wrap64 75 = 75"
  by (simp_all add: wrap64_def)

section \<open>The end-to-end scenario\<close>

lemma target_parts:
  "GetAlphanumeric env (Retailer target_receipt) = 6"
  "GetTotalCostPoints env (Total target_receipt) = 0"
  "GetItemPoints env target_receipt = 16"
  "GetDatePoints (PurchaseDate target_receipt) = Inr 6"
  "GetTimePoints (PurchaseTime target_receipt) = Inr 0"
  unfolding target_receipt_def by code_simp+

text \<open>
  Claim C1. The receipt of the scenario (retailer Target, bought on 2022-01-01 at
  13:01, total 35.35, with its five items) scores exactly 28 points, on every
  platform: 6 for the retailer, 0 for the total, 16 for the items, 6 for the odd day
  and 0 for the time.
\<close>

theorem C1_target_receipt_points:
  "GetReceiptPoints env target_receipt = Inr 28
   \<and> GetAlphanumeric env (Retailer target_receipt) = 6
   \<and> GetTotalCostPoints env (Total target_receipt) = 0
   \<and> GetItemPoints env target_receipt = 16
   \<and> GetDatePoints (PurchaseDate target_receipt) = Inr 6
   \<and> GetTimePoints (PurchaseTime target_receipt) = Inr 0"
  by (simp add: GetReceiptPoints_def target_parts wrap64_def)

theorem C1_target_receipt_points_witness:
  "GetReceiptPoints amd64 target_receipt = Inr 28"
  using C1_target_receipt_points [of amd64] by (rule conjunct1)

section \<open>The total-amount rule\<close>

lemma Round_nearest:
  "\<exists>n. Round (Finite x) = Finite (of_int n) \<and> \<bar>of_int n - x\<bar> \<le> 1 / 2"
proof (cases "x < 0")
  case True
  define n where "n = \<lfloor>- x + 1 / 2\<rfloor>"
  have "of_int n \<le> - x + 1 / 2" "- x + 1 / 2 < of_int n + 1"
    unfolding n_def by linarith+
  then have "\<bar>of_int (- n) - x\<bar> \<le> 1 / 2"
    unfolding of_int_minus by linarith
  moreover have "Round (Finite x) = Finite (of_int (- n))"
    using True by (simp add: n_def)
  ultimately show ?thesis by blast
next
  case False
  define n where "n = \<lfloor>x + 1 / 2\<rfloor>"
  have "of_int n \<le> x + 1 / 2" "x + 1 / 2 < of_int n + 1"
    unfolding n_def by linarith+
  then have "\<bar>of_int n - x\<bar> \<le> 1 / 2"
    by linarith
  moreover have "Round (Finite x) = Finite (of_int n)"
    using False by (simp add: n_def)
  ultimately show ?thesis by blast
qed

lemma GetTotalCostPoints_cents:
  "GetTotalCostPoints env s =
     (case ParseFloat s of
        Inl err \<Rightarrow> 0
      | Inr costFloat \<Rightarrow>
          (let cents = float_to_int env (Round (fmul costFloat (Finite 100)))
           in (if 100 dvd cents then 50 else 0) + (if 25 dvd cents then 25 else 0)))"
  unfolding GetTotalCostPoints_def Let_def
  by (simp add: smod_zero_iff wrap64_small split: sum.splits)

lemma GetTotalCostPoints_examples:
  "GetTotalCostPoints env ''9.00'' = 75"
  "GetTotalCostPoints env ''9.10'' = 0"
  "GetTotalCostPoints env ''9.25'' = 25"
  "GetTotalCostPoints env ''9 dollars'' = 0"
  by code_simp+

lemma nine_dollars: "ParseFloat ''9 dollars'' = Inl ErrSyntax"
  by code_simp

text \<open>
  Claim C4. The total-amount rule parses the total, takes \<open>cents\<close> as the total times
  100 rounded to the nearest integer (\<open>math.Round\<close> is within one half of its
  argument), and adds 50 when 100 divides \<open>cents\<close> and, independently, 25 when 25
  divides \<open>cents\<close>; a total that does not parse contributes 0. The total 9.00
  contributes 75, 9.10 contributes 0, 9.25 contributes 25, and the unparseable
  \<open>9 dollars\<close> contributes 0.
\<close>

theorem C4_total_amount_rule:
  "GetTotalCostPoints env s =
     (case ParseFloat s of
        Inl err \<Rightarrow> 0
      | Inr costFloat \<Rightarrow>
          (let cents = float_to_int env (Round (fmul costFloat (Finite 100)))
           in (if 100 dvd cents then 50 else 0) + (if 25 dvd cents then 25 else 0)))
   \<and> (\<exists>n. Round (Finite x) = Finite (of_int n) \<and> \<bar>of_int n - x\<bar> \<le> 1 / 2)
   \<and> GetTotalCostPoints env ''9.00'' = 75
   \<and> GetTotalCostPoints env ''9.10'' = 0
   \<and> GetTotalCostPoints env ''9.25'' = 25
   \<and> ParseFloat ''9 dollars'' = Inl ErrSyntax
   \<and> GetTotalCostPoints env ''9 dollars'' = 0"
  using GetTotalCostPoints_cents [of env s] Round_nearest [of x]
    GetTotalCostPoints_examples [of env] nine_dollars
  by blast

theorem C4_total_amount_rule_witness:
  "ParseFloat ''100.25'' = Inr (Finite (401 / 4))
   \<and> float_to_int amd64 (Round (fmul (Finite (401 / 4)) (Finite 100))) = 10025
   \<and> GetTotalCostPoints amd64 ''100.25'' = 25"
proof -
  have p: "ParseFloat ''100.25'' = Inr (Finite (401 / 4))"
    by code_simp
  have c: "float_to_int amd64 (Round (fmul (Finite (401 / 4)) (Finite 100))) = 10025"
    by code_simp
  from C4_total_amount_rule [of amd64 "''100.25''" 0]
  have "GetTotalCostPoints amd64 ''100.25'' =
     (case ParseFloat ''100.25'' of
        Inl err \<Rightarrow> 0
      | Inr costFloat \<Rightarrow>
          (let cents = float_to_int amd64 (Round (fmul costFloat (Finite 100)))
           in (if 100 dvd cents then 50 else 0) + (if 25 dvd cents then 25 else 0)))"
    by (rule conjunct1)
  also have "\<dots> = 25"
    unfolding p sum.case Let_def c by simp
  finally show ?thesis using p c by simp
qed

section \<open>The item rules\<close>

lemma desc_rule_add:
  "in_int64 p \<Longrightarrow> desc_rule env item p = wrap64 (p + desc_points env item)"
  unfolding desc_points_def desc_rule_def Let_def
  by (auto simp: wrap64_id wrap64_add_right split: sum.splits)

lemma desc_rule_in: "in_int64 p \<Longrightarrow> in_int64 (desc_rule env item p)"
  by (simp add: desc_rule_add wrap64_in)

lemma pairs_step:
  "(k + 1 + int n) div 2 - (k + 1) div 2 + (if even (k + 1) then 1 else 0)
     = ((k::int) + int (Suc n)) div 2 - k div 2"
  by (simp split: if_splits) presburger

lemma item_loop:
  "in_int64 p \<Longrightarrow>
   fold (item_step env) items (wrap64 k, p) =
     (wrap64 (k + int (length items)),
      wrap64 (p + 5 * ((k + int (length items)) div 2 - k div 2)
                + sum_list (map (desc_points env) items)))"
proof (induction items arbitrary: k p)
  case Nil
  then show ?case by (simp add: wrap64_id)
next
  case (Cons item items)
  let ?p1 = "if even (k + 1) then wrap64 (p + 5) else p"
  let ?p2 = "desc_rule env item ?p1"
  have step: "item_step env item (wrap64 k, p) = (wrap64 (k + 1), ?p2)"
    by (simp add: item_step_def Let_def smod2_even even_wrap64 wrap64_add_left)
  have in1: "in_int64 ?p1" using Cons.prems by (simp add: wrap64_in)
  then have in2: "in_int64 ?p2" by (rule desc_rule_in)
  have p2: "?p2 = wrap64 (p + (if even (k + 1) then 5 else 0) + desc_points env item)"
    using in1 Cons.prems by (simp add: desc_rule_add wrap64_add_left wrap64_id)
  have "fold (item_step env) (item # items) (wrap64 k, p)
        = fold (item_step env) items (wrap64 (k + 1), ?p2)"
    using step by simp
  also have "\<dots> = (wrap64 (k + 1 + int (length items)),
      wrap64 (?p2 + 5 * ((k + 1 + int (length items)) div 2 - (k + 1) div 2)
                + sum_list (map (desc_points env) items)))"
    using Cons.IH[OF in2, of "k + 1"] .
  also have "wrap64 (?p2 + 5 * ((k + 1 + int (length items)) div 2 - (k + 1) div 2)
                + sum_list (map (desc_points env) items))
      = wrap64 (p + 5 * ((k + int (length (item # items))) div 2 - k div 2)
                + sum_list (map (desc_points env) (item # items)))"
  proof -
    have "wrap64 (?p2 + 5 * ((k + 1 + int (length items)) div 2 - (k + 1) div 2)
                + sum_list (map (desc_points env) items))
        = wrap64 ((p + (if even (k + 1) then 5 else 0) + desc_points env item)
             + (5 * ((k + 1 + int (length items)) div 2 - (k + 1) div 2)
                + sum_list (map (desc_points env) items)))"
      unfolding p2 by (simp only: wrap64_add_left add.assoc)
    also have "(p + (if even (k + 1) then 5 else 0) + desc_points env item)
             + (5 * ((k + 1 + int (length items)) div 2 - (k + 1) div 2)
                + sum_list (map (desc_points env) items))
        = p + 5 * ((k + int (length (item # items))) div 2 - k div 2)
                + sum_list (map (desc_points env) (item # items))"
      using pairs_step[of k "length items"] by (simp split: if_splits)
    finally show ?thesis .
  qed
  finally show ?case by (simp add: ac_simps)
qed

lemma GetItemPoints_sum:
  "GetItemPoints env r =
     wrap64 (5 * int (length (Items r) div 2) + sum_list (map (desc_points env) (Items r)))"
proof -
  have "in_int64 0" by (simp add: in_int64_def)
  from item_loop[OF this, of env "Items r" 0]
  show ?thesis
    by (simp add: GetItemPoints_def wrap64_id in_int64_def zdiv_int)
qed

lemma gatorade_no_points: "desc_points env gatorade = 0"
  unfolding gatorade_def by code_simp

lemma pair_examples:
  "GetItemPoints env (receipt_of [gatorade]) = 0"
  "GetItemPoints env (receipt_of [gatorade, gatorade]) = 5"
  "GetItemPoints env (receipt_of [gatorade, gatorade, gatorade, gatorade]) = 10"
  by (simp_all add: GetItemPoints_sum receipt_of_def gatorade_no_points wrap64_def)

lemma pairs_only:
  "GetItemPoints env (receipt_of (replicate n gatorade)) = wrap64 (5 * int (n div 2))"
  by (simp add: GetItemPoints_sum receipt_of_def gatorade_no_points sum_list_replicate)

text \<open>
  Claim C9. The items of a receipt earn 5 points for every second item, that is
  \<open>5 * (n div 2)\<close> for \<open>n\<close> items, next to what the description-length rule adds for
  each item (the sum is kept in 64 bits). A receipt of \<open>n\<close> items that earn no
  description points gets \<open>5 * (n div 2)\<close>: 0 for one item, 5 for two and 10 for four.
\<close>

theorem C9_item_pair_rule:
  "GetItemPoints env r =
     wrap64 (5 * int (length (Items r) div 2) + sum_list (map (desc_points env) (Items r)))
   \<and> desc_points env gatorade = 0
   \<and> GetItemPoints env (receipt_of (replicate n gatorade)) = wrap64 (5 * int (n div 2))
   \<and> GetItemPoints env (receipt_of [gatorade]) = 0
   \<and> GetItemPoints env (receipt_of [gatorade, gatorade]) = 5
   \<and> GetItemPoints env (receipt_of [gatorade, gatorade, gatorade, gatorade]) = 10"
  using GetItemPoints_sum [of env r] gatorade_no_points [of env] pair_examples [of env]
    pairs_only [of env n]
  by simp

theorem C9_item_pair_rule_witness:
  "length (Items target_receipt) = 5
   \<and> sum_list (map (desc_points amd64) (Items target_receipt)) = 6
   \<and> GetItemPoints amd64 target_receipt = 16"
proof -
  have n: "length (Items target_receipt) = 5"
    by (simp add: target_receipt_def)
  have d: "sum_list (map (desc_points amd64) (Items target_receipt)) = 6"
    unfolding target_receipt_def by code_simp
  have "GetItemPoints amd64 target_receipt = 16"
    using C9_item_pair_rule [of amd64 target_receipt] by (simp add: n d wrap64_def)
  with n d show ?thesis by simp
qed

section \<open>The price pattern\<close>

lemma dot_not_digit: "\<not> is_digit (CHR ''.'')"
  by (simp add: is_digit_def byte_def)

lemma price_here_suffix:
  assumes "ds \<noteq> []" "list_all is_digit ds" "is_digit a" "is_digit b"
  shows "price_here (ds @ [CHR ''.'', a, b])"
proof -
  have all: "\<forall>x\<in>set ds. is_digit x" using assms(2) by (simp add: list_all_iff)
  have t: "takeWhile is_digit (ds @ [CHR ''.'', a, b]) = ds"
    using all by (simp add: dot_not_digit)
  have d: "dropWhile is_digit (ds @ [CHR ''.'', a, b]) = [CHR ''.'', a, b]"
    using all by (simp add: dot_not_digit)
  show ?thesis unfolding price_here_def t d using assms by simp
qed

lemma tails_append: "t \<in> set (tails (pre @ t))"
  by (induction pre) (cases t; simp)+

lemma tails_suffix: "t \<in> set (tails s) \<Longrightarrow> \<exists>pre. s = pre @ t"
proof (induction s)
  case Nil
  then show ?case by simp
next
  case (Cons c cs)
  then show ?case
    by (metis append_Cons append_Nil set_ConsD tails.simps(2))
qed

lemma match_price_suffix: "price_here t \<Longrightarrow> match_price (pre @ t)"
  unfolding match_price_def list_ex_iff using tails_append by blast

lemma price_here_shape:
  assumes "price_here t"
  shows "\<exists>ds a b. t = ds @ [CHR ''.'', a, b] \<and> ds \<noteq> [] \<and> list_all is_digit ds
           \<and> is_digit a \<and> is_digit b"
proof -
  let ?ds = "takeWhile is_digit t"
  let ?r = "dropWhile is_digit t"
  from assms have ne: "?ds \<noteq> []" by (simp add: price_here_def)
  from assms obtain a b where r: "?r = [CHR ''.'', a, b]" and ab: "is_digit a" "is_digit b"
    by (auto simp: price_here_def split: list.splits)
  have "t = ?ds @ ?r" by simp
  moreover have "list_all is_digit ?ds"
    by (simp add: list_all_iff) (meson set_takeWhileD)
  ultimately show ?thesis using ne r ab by metis
qed

lemma match_price_iff:
  "match_price s \<longleftrightarrow>
     (\<exists>pre ds a b. s = pre @ ds @ [CHR ''.'', a, b] \<and> ds \<noteq> [] \<and> list_all is_digit ds
         \<and> is_digit a \<and> is_digit b)"
proof
  assume "match_price s"
  then obtain t where t: "t \<in> set (tails s)" "price_here t"
    by (auto simp: match_price_def list_ex_iff)
  from tails_suffix[OF t(1)] obtain pre where "s = pre @ t" by blast
  with price_here_shape[OF t(2)] show "\<exists>pre ds a b. s = pre @ ds @ [CHR ''.'', a, b] \<and> ds \<noteq> []
      \<and> list_all is_digit ds \<and> is_digit a \<and> is_digit b"
    by blast
next
  assume "\<exists>pre ds a b. s = pre @ ds @ [CHR ''.'', a, b] \<and> ds \<noteq> [] \<and> list_all is_digit ds
         \<and> is_digit a \<and> is_digit b"
  then show "match_price s"
    using match_price_suffix price_here_suffix by blast
qed

lemma check_items_all:
  "check_items items =
     list_all (\<lambda>item. CheckPriceValidity (Price item) \<and> match_desc (ShortDescription item)) items"
  by (induction items) (auto simp: CheckPriceValidity_def)

lemma leading_characters_pass:
  "CheckPriceValidity ''abc1.00''" "CheckPriceValidity ''-5.00''"
  "\<not> CheckPriceValidity ''1.00abc''"
  by code_simp+

text \<open>
  Claim C5. The price check looks for its pattern at the end of the string only: a
  string passes exactly when it ends in one or more digits, a decimal point and two
  digits, whatever stands before them; \<open>abc1.00\<close> and \<open>-5.00\<close> pass. The items of a
  receipt are checked with the same price check (and the description pattern), and
  the total with \<open>CheckPriceValidity\<close>.
\<close>

theorem C5_price_check_end_anchored:
  assumes "ds \<noteq> []" and "list_all is_digit ds" and "is_digit a" and "is_digit b"
  shows "CheckPriceValidity (pre @ ds @ [CHR ''.'', a, b])
    \<and> (CheckPriceValidity s \<longleftrightarrow>
         (\<exists>pre ds a b. s = pre @ ds @ [CHR ''.'', a, b] \<and> ds \<noteq> [] \<and> list_all is_digit ds
            \<and> is_digit a \<and> is_digit b))
    \<and> (CheckItemsValidity r \<longleftrightarrow>
         Items r \<noteq> [] \<and>
         list_all (\<lambda>item. CheckPriceValidity (Price item) \<and> match_desc (ShortDescription item))
           (Items r))
    \<and> CheckPriceValidity ''abc1.00'' \<and> CheckPriceValidity ''-5.00''"
proof -
  have 1: "CheckPriceValidity (pre @ ds @ [CHR ''.'', a, b])"
    unfolding CheckPriceValidity_def
    using match_price_suffix [OF price_here_suffix [OF assms]] .
  have 2: "CheckPriceValidity s \<longleftrightarrow>
         (\<exists>pre ds a b. s = pre @ ds @ [CHR ''.'', a, b] \<and> ds \<noteq> [] \<and> list_all is_digit ds
            \<and> is_digit a \<and> is_digit b)"
    unfolding CheckPriceValidity_def by (rule match_price_iff)
  have 3: "CheckItemsValidity r \<longleftrightarrow>
         Items r \<noteq> [] \<and>
         list_all (\<lambda>item. CheckPriceValidity (Price item) \<and> match_desc (ShortDescription item))
           (Items r)"
    by (cases "Items r") (simp_all add: CheckItemsValidity_def check_items_all)
  from 1 2 3 leading_characters_pass(1,2) show ?thesis by blast
qed

theorem C5_price_check_end_anchored_witness:
  "''5'' \<noteq> [] \<and> list_all is_digit ''5'' \<and> is_digit (CHR ''0'') \<and> is_digit (CHR ''0'')
   \<and> CheckPriceValidity ''USD -5.00''"
proof -
  have h: "''5'' \<noteq> []" "list_all is_digit ''5''" "is_digit (CHR ''0'')"
    by (simp_all add: is_digit_def byte_def)
  from C5_price_check_end_anchored [OF h(1) h(2) h(3) h(3), of "''USD -''", THEN conjunct1]
  have "CheckPriceValidity ''USD -5.00''" by simp
  with h show ?thesis by simp
qed

section \<open>Dates and times that pass the check\<close>

lemma digit_facts:
  assumes "is_digit c"
  shows "0 \<le> digit_val c" "digit_val c \<le> 9" "c \<noteq> CHR ''+''" "c \<noteq> CHR ''-''"
    "c \<noteq> CHR '':''"
  using assms by (auto simp: is_digit_def digit_val_def byte_def)

lemma colon_not_digit: "\<not> is_digit (CHR '':'')"
  by (simp add: is_digit_def byte_def)

lemma getnum_fixed:
  "getnum v True = Some (n, r) \<Longrightarrow>
     \<exists>c0 c1. v = c0 # c1 # r \<and> is_digit c0 \<and> is_digit c1 \<and> n = digit_val c0 * 10 + digit_val c1"
  unfolding getnum_def by (auto split: list.splits if_splits)

lemma getnum_free:
  "getnum v False = Some (n, r) \<Longrightarrow>
     (\<exists>c0. v = c0 # r \<and> is_digit c0 \<and> n = digit_val c0 \<and> (r = [] \<or> \<not> is_digit (hd r)))
     \<or> (\<exists>c0 c1. v = c0 # c1 # r \<and> is_digit c0 \<and> is_digit c1
            \<and> n = digit_val c0 * 10 + digit_val c1)"
  unfolding getnum_def by (auto split: list.splits if_splits)

lemma skip_Some: "skip v c = Some r \<Longrightarrow> v = c # r"
  unfolding skip_def by (auto split: list.splits if_splits)

lemma Atoi_two_digits:
  assumes "is_digit c0" "is_digit c1"
  shows "Atoi [c0, c1] = Inr (digit_val c0 * 10 + digit_val c1)"
proof -
  have "in_int64 (digit_val c0 * 10 + digit_val c1)"
    using digit_facts(1,2)[OF assms(1)] digit_facts(1,2)[OF assms(2)]
    by (simp add: in_int64_def)
  then show ?thesis
    using assms digit_facts(3,4)[OF assms(1)]
    by (simp add: Atoi_def decimal_def)
qed

lemma Atoi_digit_colon:
  assumes "is_digit c0"
  shows "Atoi [c0, CHR '':''] = Inl ErrSyntax"
  using assms digit_facts(3,4)[OF assms] colon_not_digit
  by (simp add: Atoi_def)

lemma smod2_one: "0 \<le> x \<Longrightarrow> (x::int) smod 2 = 1 \<longleftrightarrow> odd x"
  by (auto simp: smod_int_alt_def sgn_if odd_iff_mod_2_eq_one)

lemma parse_date_shape:
  assumes "parse_date d = Some (y, m, dd)"
  shows "\<exists>e0 e1. length d = 10 \<and> drop 8 d = [e0, e1] \<and> is_digit e0 \<and> is_digit e1
           \<and> dd = digit_val e0 * 10 + digit_val e1"
proof -
  from assms have len: "4 \<le> length d"
    by (auto simp: parse_date_def split: if_splits)
  from assms obtain v1 where v1: "skip (drop 4 d) (CHR ''-'') = Some v1"
    by (auto simp: parse_date_def Let_def split: if_splits option.splits)
  from assms v1 obtain mo v2 where v2: "getnum v1 True = Some (mo, v2)"
    by (auto simp: parse_date_def Let_def split: if_splits option.splits)
  from assms v1 v2 obtain v3 where v3: "skip v2 (CHR ''-'') = Some v3"
    by (auto simp: parse_date_def Let_def split: if_splits option.splits)
  from assms v1 v2 v3 have v4: "getnum v3 True = Some (dd, [])"
    by (auto simp: parse_date_def Let_def split: if_splits option.splits)
  from getnum_fixed[OF v4] obtain e0 e1 where
    e: "v3 = [e0, e1]" "is_digit e0" "is_digit e1" "dd = digit_val e0 * 10 + digit_val e1"
    by blast
  from getnum_fixed[OF v2] obtain c0 c1 where c: "v1 = c0 # c1 # v2" by blast
  have d4: "drop 4 d = [CHR ''-'', c0, c1, CHR ''-'', e0, e1]"
    using skip_Some[OF v1] skip_Some[OF v3] c e(1) by simp
  have "length (drop 4 d) = 6" unfolding d4 by simp
  then have l: "length d = 10" by simp
  have "drop 8 d = drop 4 (drop 4 d)" by simp
  then have "drop 8 d = [e0, e1]" unfolding d4 by simp
  with l e show ?thesis by blast
qed

lemma parse_date_points:
  assumes "parse_date d = Some (y, m, dd)"
  shows "GetDatePoints d = Inr (if odd dd then 6 else 0)"
proof -
  from parse_date_shape[OF assms] obtain e0 e1 where
    s: "length d = 10" "drop 8 d = [e0, e1]" "is_digit e0" "is_digit e1"
       "dd = digit_val e0 * 10 + digit_val e1"
    by blast
  have nn: "0 \<le> dd"
    using s(5) digit_facts(1)[OF s(3)] digit_facts(1)[OF s(4)] by simp
  have "Atoi (drop (length d - 2) d) = Inr dd"
    using s Atoi_two_digits[OF s(3) s(4)] by simp
  then show ?thesis
    using s(1) nn by (simp add: GetDatePoints_def smod2_one)
qed

lemma parse_time_points:
  assumes "parse_time t = Some (h, mi)"
  shows "GetTimePoints t = Inr (if 14 \<le> h \<and> h < 16 then 10 else 0)"
proof -
  from assms obtain v1 where v1: "getnum t False = Some (h, v1)"
    by (auto simp: parse_time_def split: option.splits if_splits)
  from assms v1 obtain v2 where v2: "skip v1 (CHR '':'') = Some v2"
    by (auto simp: parse_time_def split: option.splits if_splits)
  have v1c: "v1 = CHR '':'' # v2" using skip_Some[OF v2] .
  from getnum_free[OF v1] show ?thesis
  proof
    assume "\<exists>c0. t = c0 # v1 \<and> is_digit c0 \<and> h = digit_val c0 \<and> (v1 = [] \<or> \<not> is_digit (hd v1))"
    then obtain c0 where c: "t = c0 # v1" "is_digit c0" "h = digit_val c0" by blast
    have "take 2 t = [c0, CHR '':'']" using c(1) v1c by simp
    moreover have "h \<le> 9" using c(3) digit_facts(2)[OF c(2)] by simp
    ultimately show ?thesis
      using c(1) v1c Atoi_digit_colon[OF c(2)] by (simp add: GetTimePoints_def)
  next
    assume "\<exists>c0 c1. t = c0 # c1 # v1 \<and> is_digit c0 \<and> is_digit c1
              \<and> h = digit_val c0 * 10 + digit_val c1"
    then obtain c0 c1 where c: "t = c0 # c1 # v1" "is_digit c0" "is_digit c1"
        "h = digit_val c0 * 10 + digit_val c1" by blast
    have "take 2 t = [c0, c1]" using c(1) by simp
    then show ?thesis
      using c(1,4) Atoi_two_digits[OF c(2) c(3)] by (simp add: GetTimePoints_def)
  qed
qed

lemma parse_time_len: "parse_time t = Some (h, mi) \<Longrightarrow> 4 \<le> length t"
proof -
  assume a: "parse_time t = Some (h, mi)"
  then obtain v1 where v1: "getnum t False = Some (h, v1)"
    by (auto simp: parse_time_def split: option.splits if_splits)
  from a v1 obtain v2 where v2: "skip v1 (CHR '':'') = Some v2"
    by (auto simp: parse_time_def split: option.splits if_splits)
  from a v1 v2 have v3: "getnum v2 True = Some (mi, [])"
    by (auto simp: parse_time_def split: option.splits if_splits)
  from getnum_fixed[OF v3] obtain c0 c1 where "v2 = [c0, c1]" by blast
  with skip_Some[OF v2] have "length v1 = 3" by simp
  moreover from getnum_free[OF v1] have "length v1 < length t" by auto
  ultimately show ?thesis by simp
qed

lemma GetReceiptPoints_sum:
  assumes "GetDatePoints (PurchaseDate r) = Inr dpts" "GetTimePoints (PurchaseTime r) = Inr tpts"
  shows "GetReceiptPoints env r =
    Inr (wrap64 (GetAlphanumeric env (Retailer r) + GetTotalCostPoints env (Total r)
                 + GetItemPoints env r + dpts + tpts))"
proof -
  have w3: "wrap64 (wrap64 a + b + c) = wrap64 (a + b + c)" for a b c
    using wrap64_add_left [of a "b + c"] by (simp add: add.assoc)
  have w4: "wrap64 (wrap64 a + b + c + d) = wrap64 (a + b + c + d)" for a b c d
    using wrap64_add_left [of a "b + c + d"] by (simp add: add.assoc)
  show ?thesis
    using assms by (simp add: GetReceiptPoints_def Let_def wrap64_add_left w3 w4)
qed

lemma parse_failures_count_zero:
  "ParseFloat s = Inl e \<Longrightarrow> GetTotalCostPoints env s = 0"
  "ParseFloat (Price item) = Inl e \<Longrightarrow> desc_rule env item p = p"
  "2 \<le> length d \<Longrightarrow> Atoi (drop (length d - 2) d) = Inl e' \<Longrightarrow> GetDatePoints d = Inr 0"
  "2 \<le> length t \<Longrightarrow> Atoi (take 2 t) = Inl e' \<Longrightarrow> GetTimePoints t = Inr 0"
  by (simp_all add: GetTotalCostPoints_def desc_rule_def GetDatePoints_def GetTimePoints_def)

lemma lenient_facts:
  "valid_receipt lenient_receipt"
  "ParseFloat (Total lenient_receipt) = Inl ErrSyntax"
  "ParseFloat (Price (hd (Items lenient_receipt))) = Inl ErrSyntax"
  "Atoi (take 2 (PurchaseTime lenient_receipt)) = Inl ErrSyntax"
  "GetAlphanumeric amd64 (Retailer lenient_receipt) = 6"
  "GetItemPoints amd64 lenient_receipt = 0"
  "parse_date (PurchaseDate lenient_receipt) = Some (2022, 1, 1)"
  "parse_time (PurchaseTime lenient_receipt) = Some (9, 30)"
  unfolding lenient_receipt_def by code_simp+

text \<open>
  Claim C7. For a receipt that passed the four checks the score is computed without a
  panic: the date has ten bytes and the time at least four, so both slice expressions
  are in range; the day and the hour read by the checks are the ones the rules score;
  and the score is the sum, in 64 bits, of the five rules. A total or an item price
  that does not parse, and a day or an hour that \<open>Atoi\<close> rejects, contribute 0 and
  leave the other rules as they are.
\<close>

theorem C7_scorer_never_panics:
  assumes "valid_receipt r"
  shows "2 \<le> length (PurchaseDate r) \<and> 2 \<le> length (PurchaseTime r)
    \<and> (\<exists>y m dd h mi.
          parse_date (PurchaseDate r) = Some (y, m, dd)
        \<and> parse_time (PurchaseTime r) = Some (h, mi)
        \<and> GetDatePoints (PurchaseDate r) = Inr (if odd dd then 6 else 0)
        \<and> GetTimePoints (PurchaseTime r) = Inr (if 14 \<le> h \<and> h < 16 then 10 else 0)
        \<and> GetReceiptPoints env r =
            Inr (wrap64 (GetAlphanumeric env (Retailer r) + GetTotalCostPoints env (Total r)
                   + GetItemPoints env r + (if odd dd then 6 else 0)
                   + (if 14 \<le> h \<and> h < 16 then 10 else 0))))
    \<and> (\<forall>e. ParseFloat (Total r) = Inl e \<longrightarrow> GetTotalCostPoints env (Total r) = 0)
    \<and> (\<forall>item p e. ParseFloat (Price item) = Inl e \<longrightarrow> desc_rule env item p = p)
    \<and> (\<forall>e. Atoi (drop (length (PurchaseDate r) - 2) (PurchaseDate r)) = Inl e
           \<longrightarrow> GetDatePoints (PurchaseDate r) = Inr 0)
    \<and> (\<forall>e. Atoi (take 2 (PurchaseTime r)) = Inl e
           \<longrightarrow> GetTimePoints (PurchaseTime r) = Inr 0)"
proof -
  from assms obtain y m dd where d: "parse_date (PurchaseDate r) = Some (y, m, dd)"
    by (auto simp: valid_receipt_def CheckValidTime_def split: if_splits)
  from assms obtain h mi where t: "parse_time (PurchaseTime r) = Some (h, mi)"
    by (auto simp: valid_receipt_def CheckValidTime_def split: if_splits)
  from parse_date_shape[OF d] have ld: "2 \<le> length (PurchaseDate r)" by auto
  from parse_time_len[OF t] have lt: "2 \<le> length (PurchaseTime r)" by simp
  note dpts = parse_date_points[OF d] and tpts = parse_time_points[OF t]
  note sum = GetReceiptPoints_sum[OF dpts tpts, of env]
  have 1: "\<exists>y m dd h mi.
          parse_date (PurchaseDate r) = Some (y, m, dd)
        \<and> parse_time (PurchaseTime r) = Some (h, mi)
        \<and> GetDatePoints (PurchaseDate r) = Inr (if odd dd then 6 else 0)
        \<and> GetTimePoints (PurchaseTime r) = Inr (if 14 \<le> h \<and> h < 16 then 10 else 0)
        \<and> GetReceiptPoints env r =
            Inr (wrap64 (GetAlphanumeric env (Retailer r) + GetTotalCostPoints env (Total r)
                   + GetItemPoints env r + (if odd dd then 6 else 0)
                   + (if 14 \<le> h \<and> h < 16 then 10 else 0)))"
    using d t dpts tpts sum by blast
  have 2: "\<forall>e. ParseFloat (Total r) = Inl e \<longrightarrow> GetTotalCostPoints env (Total r) = 0"
    using parse_failures_count_zero(1) by blast
  have 3: "\<forall>item p e. ParseFloat (Price item) = Inl e \<longrightarrow> desc_rule env item p = p"
    using parse_failures_count_zero(2) by blast
  have 4: "\<forall>e. Atoi (drop (length (PurchaseDate r) - 2) (PurchaseDate r)) = Inl e
           \<longrightarrow> GetDatePoints (PurchaseDate r) = Inr 0"
    using parse_failures_count_zero(3)[OF ld] by blast
  have 5: "\<forall>e. Atoi (take 2 (PurchaseTime r)) = Inl e
           \<longrightarrow> GetTimePoints (PurchaseTime r) = Inr 0"
    using parse_failures_count_zero(4)[OF lt] by blast
  from ld lt 1 2 3 4 5 show ?thesis by blast
qed

theorem C7_scorer_never_panics_witness:
  "valid_receipt lenient_receipt
   \<and> ParseFloat (Total lenient_receipt) = Inl ErrSyntax
   \<and> ParseFloat (Price (hd (Items lenient_receipt))) = Inl ErrSyntax
   \<and> Atoi (take 2 (PurchaseTime lenient_receipt)) = Inl ErrSyntax
   \<and> GetReceiptPoints amd64 lenient_receipt = Inr 12"
proof -
  from C7_scorer_never_panics [OF lenient_facts(1), of amd64]
  obtain y m dd h mi where
    p: "parse_date (PurchaseDate lenient_receipt) = Some (y, m, dd)"
       "parse_time (PurchaseTime lenient_receipt) = Some (h, mi)"
       "GetReceiptPoints amd64 lenient_receipt =
            Inr (wrap64 (GetAlphanumeric amd64 (Retailer lenient_receipt)
                   + GetTotalCostPoints amd64 (Total lenient_receipt)
                   + GetItemPoints amd64 lenient_receipt + (if odd dd then 6 else 0)
                   + (if 14 \<le> h \<and> h < 16 then 10 else 0)))"
    and z: "\<forall>e. ParseFloat (Total lenient_receipt) = Inl e
              \<longrightarrow> GetTotalCostPoints amd64 (Total lenient_receipt) = 0"
    by blast
  from p(1) lenient_facts(7) have dd: "dd = 1" by simp
  from p(2) lenient_facts(8) have h: "h = 9" by simp
  from z lenient_facts(2) have tz: "GetTotalCostPoints amd64 (Total lenient_receipt) = 0"
    by blast
  have "GetReceiptPoints amd64 lenient_receipt = Inr 12"
    unfolding p(3) dd h tz lenient_facts(5,6) by (simp add: wrap64_def)
  with lenient_facts(1-4) show ?thesis by simp
qed

section \<open>A single-digit hour\<close>

lemma nine_thirty:
  "CheckValidTime ''2022-01-01'' ''9:30''"
  "GetTimePoints ''9:30'' = Inr 0"
  "Atoi (take 2 ''9:30'') = Inl ErrSyntax"
  by code_simp+

text \<open>
  Claim C10. A time with an hour of one digit, such as 9:30, passes the time check:
  the hour of the layout 15:04 may have one or two digits. For such a time the first
  two bytes are the digit and the colon, which \<open>Atoi\<close> rejects, and the afternoon rule
  contributes 0 without failing.
\<close>

theorem C10_single_digit_hour:
  assumes "is_digit h" and "is_digit m1" and "is_digit m2" and "digit_val m1 < 6"
  shows "parse_time [h, CHR '':'', m1, m2] = Some (digit_val h, digit_val m1 * 10 + digit_val m2)
    \<and> (CheckValidTime d [h, CHR '':'', m1, m2] \<longleftrightarrow> parse_date d \<noteq> None)
    \<and> Atoi (take 2 [h, CHR '':'', m1, m2]) = Inl ErrSyntax
    \<and> GetTimePoints [h, CHR '':'', m1, m2] = Inr 0
    \<and> CheckValidTime ''2022-01-01'' ''9:30''
    \<and> Atoi (take 2 ''9:30'') = Inl ErrSyntax
    \<and> GetTimePoints ''9:30'' = Inr 0"
proof -
  have hb: "0 \<le> digit_val h" "digit_val h \<le> 9"
    using digit_facts(1,2)[OF assms(1)] .
  have mb: "0 \<le> digit_val m1" "0 \<le> digit_val m2" "digit_val m2 \<le> 9"
    using digit_facts(1)[OF assms(2)] digit_facts(1,2)[OF assms(3)] .
  have g1: "getnum [h, CHR '':'', m1, m2] False = Some (digit_val h, [CHR '':'', m1, m2])"
    using assms(1) colon_not_digit by (simp add: getnum_def)
  have g2: "getnum [m1, m2] True = Some (digit_val m1 * 10 + digit_val m2, [])"
    using assms(2,3) by (simp add: getnum_def)
  have 1: "parse_time [h, CHR '':'', m1, m2]
             = Some (digit_val h, digit_val m1 * 10 + digit_val m2)"
    using hb mb assms(4) by (simp add: parse_time_def g1 g2 skip_def)
  then have 2: "CheckValidTime d [h, CHR '':'', m1, m2] \<longleftrightarrow> parse_date d \<noteq> None"
    by (simp add: CheckValidTime_def)
  have 3: "Atoi (take 2 [h, CHR '':'', m1, m2]) = Inl ErrSyntax"
    using Atoi_digit_colon[OF assms(1)] by simp
  then have 4: "GetTimePoints [h, CHR '':'', m1, m2] = Inr 0"
    by (simp add: GetTimePoints_def)
  from 1 2 3 4 nine_thirty show ?thesis by blast
qed

theorem C10_single_digit_hour_witness:
  "is_digit (CHR ''9'') \<and> is_digit (CHR ''3'') \<and> is_digit (CHR ''0'')
   \<and> digit_val (CHR ''3'') < 6
   \<and> parse_time ''9:30'' = Some (9, 30)
   \<and> GetTimePoints ''9:30'' = Inr 0"
proof -
  have h: "is_digit (CHR ''9'')" "is_digit (CHR ''3'')" "is_digit (CHR ''0'')"
    "digit_val (CHR ''3'') < 6"
    by (simp_all add: is_digit_def digit_val_def byte_def)
  from C10_single_digit_hour [OF h]
  have "parse_time ''9:30'' = Some (digit_val (CHR ''9''), digit_val (CHR ''3'') * 10 + digit_val (CHR ''0''))"
    and "GetTimePoints ''9:30'' = Inr 0"
    by blast+
  then have "parse_time ''9:30'' = Some (9, 30)" "GetTimePoints ''9:30'' = Inr 0"
    by (simp_all add: digit_val_def byte_def)
  with h show ?thesis by simp
qed

section \<open>The description-length rule\<close>

lemma trimmed_lengths:
  "length (TrimSpace ''Emils Cheese Pizza'') = 18"
  "length (TrimSpace ''Gatorade'') = 8"
  "length (TrimSpace ''Dasani Water'') = 12"
  by code_simp+

lemma emils_at_12_25:
  "desc_points env \<lparr>ShortDescription = ''Emils Cheese Pizza'', Price = ''12.25''\<rparr> = 3"
  by code_simp

lemma ten_dollars:
  "ParseFloat ''10.00'' = Inr (Finite 10)"
  "float_to_int env (Ceil (fmul (Finite 10) (round64 (1 / 5)))) = 2"
  by code_simp+

lemma smod3: "(18::int) smod 3 = 0" "(12::int) smod 3 = 0" "(8::int) smod 3 \<noteq> 0"
  by (simp_all add: smod_int_alt_def)

text \<open>
  Claim C3, as amended. \<open>Emils Cheese Pizza\<close> has 18 bytes, a multiple of 3, so the item
  earns the smallest integer not below a fifth of its price (3 at the price 12.25, and
  nothing when the price does not parse); \<open>Gatorade\<close> has 8 bytes and earns nothing,
  whatever its price; an item whose trimmed description has 12 bytes earns 2 at the
  price 10.00.
\<close>

theorem C3_description_length_rule:
  assumes "length (TrimSpace d) = 12"
  shows "length (TrimSpace ''Emils Cheese Pizza'') = 18
    \<and> desc_rule env \<lparr>ShortDescription = ''Emils Cheese Pizza'', Price = price\<rparr> points =
        (case ParseFloat price of
           Inl err \<Rightarrow> points
         | Inr f \<Rightarrow>
             wrap64 (points + float_to_int env (Ceil (fmul f (round64 (2 / 10))))))
    \<and> desc_points env \<lparr>ShortDescription = ''Emils Cheese Pizza'', Price = ''12.25''\<rparr> = 3
    \<and> length (TrimSpace ''Gatorade'') = 8
    \<and> desc_rule env \<lparr>ShortDescription = ''Gatorade'', Price = price\<rparr> points = points
    \<and> desc_points env \<lparr>ShortDescription = d, Price = ''10.00''\<rparr> = 2"
proof -
  have 1: "desc_rule env \<lparr>ShortDescription = ''Emils Cheese Pizza'', Price = price\<rparr> points =
        (case ParseFloat price of
           Inl err \<Rightarrow> points
         | Inr f \<Rightarrow>
             wrap64 (points + float_to_int env (Ceil (fmul f (round64 (2 / 10))))))"
    by (simp add: desc_rule_def trimmed_lengths(1) smod3 split: sum.splits)
  have 2: "desc_rule env \<lparr>ShortDescription = ''Gatorade'', Price = price\<rparr> points = points"
    by (simp add: desc_rule_def trimmed_lengths(2) smod3)
  have 3: "desc_points env \<lparr>ShortDescription = d, Price = ''10.00''\<rparr> = 2"
    by (simp add: desc_points_def desc_rule_def assms smod3 ten_dollars wrap64_def)
  from 1 2 3 trimmed_lengths(1,2) emils_at_12_25 show ?thesis by blast
qed

theorem C3_description_length_rule_witness:
  "length (TrimSpace ''Dasani Water'') = 12
   \<and> desc_points amd64 \<lparr>ShortDescription = ''Dasani Water'', Price = ''10.00''\<rparr> = 2"
  using C3_description_length_rule [OF trimmed_lengths(3), of amd64] trimmed_lengths(3)
  by blast

theorem C3_emils_counterexample:
  "length (TrimSpace ''Emils Cheese Pizza'') = 18
   \<and> desc_points amd64 \<lparr>ShortDescription = ''Emils Cheese Pizza'', Price = ''12.25''\<rparr> = 3
   \<and> desc_points amd64 \<lparr>ShortDescription = ''Emils Cheese Pizza'', Price = ''12.25''\<rparr> \<noteq> 0"
  using trimmed_lengths(1) emils_at_12_25 [of amd64] by simp

section \<open>Rejected and stored receipts\<close>

lemma CreateReceipt_cases:
  "CreateReceipt uuid r srv =
     (if valid_receipt (decoded r)
      then (IDResponse (uuid (generated srv)),
            \<lparr>receipts = receipts srv @ [(decoded r)\<lparr>ID := uuid (generated srv)\<rparr>],
             generated = Suc (generated srv)\<rparr>)
      else (Error StatusBadRequest ''The receipt is invalid.'', srv))"
  by (cases srv) (simp add: CreateReceipt_def valid_receipt_def GenerateID_def Let_def)

lemma rejected_fields:
  "\<not> CheckPriceValidity ''10.0''"
  "parse_date ''2022-13-01'' = None"
  "parse_time ''25:00'' = None"
  by code_simp+

lemma no_items: "\<not> CheckItemsValidity (r\<lparr>Items := []\<rparr>)"
  by (simp add: CheckItemsValidity_def)

lemma target_valid: "valid_receipt target_receipt"
  unfolding target_receipt_def by code_simp

text \<open>
  Claim C6. A receipt without items, a receipt with the total 10.0, a receipt with the
  purchase date 2022-13-01 and a receipt with the purchase time 25:00 each fail their
  check, whatever their other fields are, and \<open>CreateReceipt\<close> answers 400 and stores
  nothing.
\<close>

theorem C6_validation_rejects:
  "\<not> CheckItemsValidity (r\<lparr>Items := []\<rparr>)
   \<and> \<not> CheckPriceValidity ''10.0''
   \<and> \<not> CheckValidTime ''2022-13-01'' t
   \<and> \<not> CheckValidTime d ''25:00''
   \<and> \<not> valid_receipt (r\<lparr>Items := []\<rparr>)
   \<and> \<not> valid_receipt (r\<lparr>Total := ''10.0''\<rparr>)
   \<and> \<not> valid_receipt (r\<lparr>PurchaseDate := ''2022-13-01''\<rparr>)
   \<and> \<not> valid_receipt (r\<lparr>PurchaseTime := ''25:00''\<rparr>)
   \<and> CreateReceipt uuid \<lparr>decoded = r\<lparr>Items := []\<rparr>, decode_error = e\<rparr> srv
        = (Error 400 ''The receipt is invalid.'', srv)
   \<and> CreateReceipt uuid \<lparr>decoded = r\<lparr>Total := ''10.0''\<rparr>, decode_error = e\<rparr> srv
        = (Error 400 ''The receipt is invalid.'', srv)
   \<and> CreateReceipt uuid \<lparr>decoded = r\<lparr>PurchaseDate := ''2022-13-01''\<rparr>, decode_error = e\<rparr> srv
        = (Error 400 ''The receipt is invalid.'', srv)
   \<and> CreateReceipt uuid \<lparr>decoded = r\<lparr>PurchaseTime := ''25:00''\<rparr>, decode_error = e\<rparr> srv
        = (Error 400 ''The receipt is invalid.'', srv)"
proof -
  have c: "\<not> CheckValidTime ''2022-13-01'' t" "\<not> CheckValidTime d ''25:00''" for d t
    by (simp_all add: CheckValidTime_def rejected_fields)
  have v: "\<not> valid_receipt (r\<lparr>Items := []\<rparr>)"
    "\<not> valid_receipt (r\<lparr>Total := ''10.0''\<rparr>)"
    "\<not> valid_receipt (r\<lparr>PurchaseDate := ''2022-13-01''\<rparr>)"
    "\<not> valid_receipt (r\<lparr>PurchaseTime := ''25:00''\<rparr>)"
    using c rejected_fields(1) by (simp_all add: valid_receipt_def CheckItemsValidity_def)
  show ?thesis
    using c v no_items rejected_fields(1)
    by (simp add: CreateReceipt_cases StatusBadRequest_def)
qed

theorem C6_validation_rejects_witness:
  "valid_receipt target_receipt
   \<and> \<not> valid_receipt (target_receipt\<lparr>Items := []\<rparr>)
   \<and> \<not> valid_receipt (target_receipt\<lparr>Total := ''10.0''\<rparr>)
   \<and> \<not> valid_receipt (target_receipt\<lparr>PurchaseDate := ''2022-13-01''\<rparr>)
   \<and> \<not> valid_receipt (target_receipt\<lparr>PurchaseTime := ''25:00''\<rparr>)"
  using C6_validation_rejects [of target_receipt] target_valid by blast

text \<open>
  Claim C8, as amended. \<open>CreateReceipt\<close> answers 400 and leaves the server as it was (no
  identifier generated, nothing appended) exactly when the receipt, as the decoder
  filled it in, fails one of the four checks; this is so in particular when the body
  could not be decoded at all and the receipt is still blank. The error of the decoder
  itself is not looked at: a receipt that passes the checks is stored under a new
  identifier whether or not the decoder reported an error.
\<close>

theorem C8_invalid_receipt_not_stored:
  "CreateReceipt uuid r srv =
     (if valid_receipt (decoded r)
      then (IDResponse (uuid (generated srv)),
            \<lparr>receipts = receipts srv @ [(decoded r)\<lparr>ID := uuid (generated srv)\<rparr>],
             generated = Suc (generated srv)\<rparr>)
      else (Error 400 ''The receipt is invalid.'', srv))
   \<and> \<not> valid_receipt blank_receipt
   \<and> CreateReceipt uuid \<lparr>decoded = blank_receipt, decode_error = True\<rparr> srv
        = (Error 400 ''The receipt is invalid.'', srv)"
proof -
  have b: "\<not> valid_receipt blank_receipt"
    by (simp add: valid_receipt_def blank_receipt_def CheckValidDescription_def)
  then show ?thesis
    by (simp add: CreateReceipt_cases StatusBadRequest_def)
qed

theorem C8_invalid_receipt_not_stored_witness:
  "\<not> valid_receipt (target_receipt\<lparr>Total := ''10.0''\<rparr>)
   \<and> CreateReceipt sample_uuid
        \<lparr>decoded = target_receipt\<lparr>Total := ''10.0''\<rparr>, decode_error = False\<rparr> empty_server
      = (Error 400 ''The receipt is invalid.'', empty_server)"
proof -
  have n: "\<not> valid_receipt (target_receipt\<lparr>Total := ''10.0''\<rparr>)"
    by (simp add: valid_receipt_def rejected_fields)
  from C8_invalid_receipt_not_stored
    [of sample_uuid "\<lparr>decoded = target_receipt\<lparr>Total := ''10.0''\<rparr>, decode_error = False\<rparr>"
        empty_server]
  have "CreateReceipt sample_uuid
        \<lparr>decoded = target_receipt\<lparr>Total := ''10.0''\<rparr>, decode_error = False\<rparr> empty_server
      = (Error 400 ''The receipt is invalid.'', empty_server)"
    using n by simp
  with n show ?thesis by simp
qed

theorem C8_decode_error_counterexample:
  "decode_error typed_id_request
   \<and> CreateReceipt sample_uuid typed_id_request empty_server =
       (IDResponse ''7fb1377b-b223-49d9-a31a-5a02701dd310'',
        \<lparr>receipts = [target_receipt\<lparr>ID := ''7fb1377b-b223-49d9-a31a-5a02701dd310''\<rparr>],
         generated = 1\<rparr>)"
  using target_valid
  by (simp add: CreateReceipt_cases typed_id_request_def empty_server_def sample_uuid_def)

section \<open>A negative price\<close>

lemma refund_parts:
  "valid_receipt refund_receipt"
  "GetAlphanumeric env (Retailer refund_receipt) = 6"
  "GetTotalCostPoints env (Total refund_receipt) = 0"
  "GetItemPoints env refund_receipt = - 100"
  "GetDatePoints (PurchaseDate refund_receipt) = Inr 0"
  "GetTimePoints (PurchaseTime refund_receipt) = Inr 0"
  unfolding refund_receipt_def by code_simp+

text \<open>
  Claim C2 does not hold of the code. The receipt \<open>refund_receipt\<close> passes the four
  checks, since the price pattern is not anchored at the start and lets the sign of
  \<open>-500.00\<close> through, and it scores -94 points on every platform: 6 for the retailer
  and -100 for the item.
\<close>

theorem C2_negative_price_scores_below_zero:
  "valid_receipt refund_receipt
   \<and> GetReceiptPoints env refund_receipt = Inr (- 94)"
  by (simp add: GetReceiptPoints_def refund_parts wrap64_def)

theorem C2_negative_price_scores_below_zero_witness:
  "valid_receipt refund_receipt
   \<and> GetReceiptPoints amd64 refund_receipt = Inr (- 94)"
  by (rule C2_negative_price_scores_below_zero)

end
